theory Spec2Isabelle
  imports Complex_Main
begin

section \<open>Python values used by the two scripts\<close>

text \<open>
  The repository holds two Python scripts, \<^verbatim>\<open>BannerCollageMaker.py\<close> and
  \<^verbatim>\<open>MockupGenerator.py\<close>. Python integers are unbounded and become \<open>int\<close>;
  \<^verbatim>\<open>//\<close> is floor division, which is \<open>div\<close> on \<open>int\<close>. Exceptions are values of
  the type \<open>exn\<close>; a computation that may raise returns \<open>exn + 'a\<close>.
\<close>

datatype exn =
    ZeroDivisionError
  | ValueError
  | IndexError
  | KeyError
  | TypeError
  | AttributeError
  | FileNotFoundError
  | UnidentifiedImageError
  | DecodeError

definition bind_exn :: "exn + 'a \<Rightarrow> ('a \<Rightarrow> exn + 'b) \<Rightarrow> exn + 'b" where
  "bind_exn m f = (case m of Inl e \<Rightarrow> Inl e | Inr v \<Rightarrow> f v)"

subsection \<open>Floating point\<close>

text \<open>
  A Python \<^verbatim>\<open>float\<close> is an IEEE 754 binary64 number and every arithmetic operation
  rounds the exact result to the nearest representable number, ties to even. A float is
  modelled by the rational it denotes, and \<open>fl\<close> rounds an exact rational to 53
  significant bits. Overflow, subnormal numbers, infinities and NaN are not modelled:
  they are out of reach for quotients and products of image dimensions.
\<close>

function bitlen :: "int \<Rightarrow> int" where
  "bitlen n = (if n \<le> 0 then 0 else bitlen (n div 2) + 1)"
  by pat_completeness auto
termination
  by (relation "measure nat") auto

declare bitlen.simps [simp del]

definition binexp :: "rat \<Rightarrow> int" where
  "binexp q =
     (let (a, b) = quotient_of q; e0 = bitlen a - bitlen b
      in if 2 powi e0 \<le> q then e0 else e0 - 1)"

definition round_half_even :: "rat \<Rightarrow> int" where
  "round_half_even s =
     (let f = \<lfloor>s\<rfloor>; r = s - of_int f
      in if r < 1 / 2 then f else if 1 / 2 < r then f + 1
         else if even f then f else f + 1)"

definition fl_pos :: "rat \<Rightarrow> rat" where
  "fl_pos q =
     (let e = binexp q
      in of_int (round_half_even (q * 2 powi (52 - e))) * 2 powi (e - 52))"

definition fl :: "rat \<Rightarrow> rat" where
  "fl q = (if q = 0 then 0 else if q < 0 then - fl_pos (- q) else fl_pos q)"

text \<open>\<^verbatim>\<open>a / b\<close> on two integers: true division, correctly rounded.\<close>

definition py_truediv :: "int \<Rightarrow> int \<Rightarrow> exn + rat" where
  "py_truediv a b = (if b = 0 then Inl ZeroDivisionError else Inr (fl (of_int a / of_int b)))"

text \<open>\<^verbatim>\<open>n / x\<close> with an integer \<open>n\<close> and a float \<open>x\<close>.\<close>

definition py_div_float :: "int \<Rightarrow> rat \<Rightarrow> exn + rat" where
  "py_div_float n x = (if x = 0 then Inl ZeroDivisionError else Inr (fl (of_int n / x)))"

text \<open>\<^verbatim>\<open>x * n\<close> with a float \<open>x\<close> and an integer \<open>n\<close>.\<close>

definition py_mul_float :: "rat \<Rightarrow> int \<Rightarrow> rat" where
  "py_mul_float x n = fl (x * of_int n)"

text \<open>\<^verbatim>\<open>int(x)\<close> truncates towards zero.\<close>

definition py_int :: "rat \<Rightarrow> int" where
  "py_int x = (if 0 \<le> x then \<lfloor>x\<rfloor> else \<lceil>x\<rceil>)"

subsection \<open>Lists\<close>

text \<open>\<^verbatim>\<open>xs * k\<close> repeats a list; a count of zero or below gives the empty list.\<close>

definition list_repeat :: "'a list \<Rightarrow> int \<Rightarrow> 'a list" where
  "list_repeat xs k = (if k \<le> 0 then [] else concat (replicate (nat k) xs))"

text \<open>\<^verbatim>\<open>xs[:n]\<close>; a negative \<open>n\<close> counts from the end.\<close>

definition slice_to :: "'a list \<Rightarrow> int \<Rightarrow> 'a list" where
  "slice_to xs n =
     (if 0 \<le> n then take (nat n) xs else take (nat (int (length xs) + n)) xs)"

section \<open>The imaging library\<close>

text \<open>
  Both scripts use Pillow. An image is modelled by its size; pixel contents, modes and
  colours are not modelled. Each operation is modelled by the size of its result and by
  the \<^verbatim>\<open>ValueError\<close> it raises on a malformed box or size.
\<close>

record image =
  width :: int
  height :: int

text \<open>\<^verbatim>\<open>Image.crop((left, upper, right, lower))\<close>\<close>

definition crop :: "image \<Rightarrow> int \<times> int \<times> int \<times> int \<Rightarrow> exn + image" where
  "crop im box =
     (case box of (left, upper, right, lower) \<Rightarrow>
        if right < left then Inl ValueError
        else if lower < upper then Inl ValueError
        else Inr \<lparr>width = right - left, height = lower - upper\<rparr>)"

text \<open>\<^verbatim>\<open>Image.resize((w, h), resample)\<close>: a copy when the size is unchanged.\<close>

definition resize :: "image \<Rightarrow> int \<times> int \<Rightarrow> exn + image" where
  "resize im sz =
     (case sz of (w, h) \<Rightarrow>
        if (width im, height im) = (w, h) then Inr im
        else if w < 1 \<or> h < 1 then Inl ValueError
        else Inr \<lparr>width = w, height = h\<rparr>)"

text \<open>\<^verbatim>\<open>ImageOps.expand(image, border=b, fill=colour)\<close>\<close>

definition expand :: "image \<Rightarrow> int \<Rightarrow> string \<Rightarrow> exn + image" where
  "expand im border fill =
     (let w = border + width im + border; h = border + height im + border
      in if w < 0 \<or> h < 0 then Inl ValueError else Inr \<lparr>width = w, height = h\<rparr>)"

section \<open>BannerCollageMaker: helper functions\<close>

text \<open>\<^verbatim>\<open>fit_crop(img, tw, th)\<close>, lines 50 to 62.\<close>

definition fit_crop :: "image \<Rightarrow> int \<Rightarrow> int \<Rightarrow> exn + image" where
  "fit_crop img tw th =
     (let iw = width img; ih = height img in
      bind_exn (py_truediv tw th) (\<lambda>target_aspect.
      bind_exn (py_truediv iw ih) (\<lambda>img_aspect.
      bind_exn
        (if target_aspect < img_aspect then
           (let new_width = py_int (py_mul_float target_aspect ih);
                offset = (iw - new_width) div 2
            in crop img (offset, 0, iw - offset, ih))
         else
           bind_exn (py_div_float iw target_aspect) (\<lambda>q.
             let new_height = py_int q;
                 offset = (ih - new_height) div 2
             in crop img (0, offset, iw, ih - offset)))
        (\<lambda>img'. resize img' (tw, th)))))"

text \<open>
  The pool expansion of \<^verbatim>\<open>make_banner\<close>, lines 122 and 123:
  \<^verbatim>\<open>(pool * (slots // len(pool) + 1))[:slots]\<close>.
\<close>

definition repeated_pool :: "'a list \<Rightarrow> int \<Rightarrow> exn + 'a list" where
  "repeated_pool pool slots =
     (if pool = [] then Inl ZeroDivisionError
      else Inr (list_repeat pool (slots div int (length pool) + 1)))"

definition to_place :: "'a list \<Rightarrow> int \<Rightarrow> exn + 'a list" where
  "to_place pool slots = bind_exn (repeated_pool pool slots) (\<lambda>xs. Inr (slice_to xs slots))"

section \<open>Strings and paths\<close>

definition lower_char :: "char \<Rightarrow> char" where
  "lower_char c =
     (let n = (of_char c :: nat) in if 65 \<le> n \<and> n \<le> 90 then char_of (n + 32) else c)"

definition lower :: "string \<Rightarrow> string" where
  "lower s = map lower_char s"

definition endswith :: "string \<Rightarrow> string \<Rightarrow> bool" where
  "endswith s suf = (length suf \<le> length s \<and> drop (length s - length suf) s = suf)"

definition startswith :: "string \<Rightarrow> string \<Rightarrow> bool" where
  "startswith s pre = (take (length pre) s = pre)"

text \<open>\<^verbatim>\<open>os.path.basename\<close>: what follows the last separator.\<close>

definition basename :: "string \<Rightarrow> string" where
  "basename p = rev (takeWhile (\<lambda>c. c \<noteq> CHR ''/'') (rev p))"

text \<open>\<^verbatim>\<open>os.path.join(a, b)\<close>\<close>

definition path_join :: "string \<Rightarrow> string \<Rightarrow> string" where
  "path_join a b =
     (if startswith b ''/'' then b
      else if a = [] \<or> endswith a ''/'' then a @ b
      else a @ ''/'' @ b)"

text \<open>
  \<^verbatim>\<open>os.path.splitext(p)[0]\<close>: the path up to the last dot of its last component,
  unless that component has only dots before it.
\<close>

definition splitext_root :: "string \<Rightarrow> string" where
  "splitext_root p =
     (let base = basename p;
          dir = take (length p - length base) p;
          stem = rev (drop 1 (dropWhile (\<lambda>c. c \<noteq> CHR ''.'') (rev base)))
      in if CHR ''.'' \<in> set base \<and> list_ex (\<lambda>c. c \<noteq> CHR ''.'') stem then dir @ stem
         else p)"

section \<open>MockupGenerator: configuration\<close>

definition INPUT_FOLDER :: string where "INPUT_FOLDER = ''Favs''"
definition OUTPUT_FOLDER :: string where "OUTPUT_FOLDER = ''mockup_outputs''"
definition FRAME_THICKNESS :: int where "FRAME_THICKNESS = 50"
definition MAT_THICKNESS :: int where "MAT_THICKNESS = 80"
definition FRAME_COLOR :: string where "FRAME_COLOR = ''black''"
definition MAT_COLOR :: string where "MAT_COLOR = ''white''"
definition DELAY_BETWEEN_SCENES :: int where "DELAY_BETWEEN_SCENES = 1"
definition DELAY_BETWEEN_PHOTOS :: int where "DELAY_BETWEEN_PHOTOS = 1"
definition RETRY_DELAY :: int where "RETRY_DELAY = 5"
definition max_retries :: int where "max_retries = 3"

definition BASE_SCENE_PROMPTS :: "(string \<times> string) list" where
  "BASE_SCENE_PROMPTS =
     [(''etsy_cover_mockup'',
       ''Place this framed artwork on a plain, minimalist, neutral off-white wall. The scene should be clean and simple, with no other objects or furniture. The lighting should be bright and natural, with dappled sunlight casting soft, artistic shadows from a window across the wall and frame. Ensure ultra-realistic detail and professional photography quality.''),
      (''living_room'',
       ''Place this framed artwork on a wall in a bright, modern living room. The room should be filled with realistic sunlight and soft shadows. The wall behind the artwork should have a subtle, harmonious tone. Ensure ultra-realistic detail, lifelike textures, and professional photography quality.''),
      (''living_room_v2'',
       ''Place this framed artwork on a wall in a bright, cozy modern living room. The room should be filled with realistic sunlight and r shadows. The wall behind the artwork should have a subtle, harmonious tone. Ensure ultra-realistic detail, lifelike textures, and professional photography quality.''),
      (''bedroom'',
       ''Place this framed artwork on the wall above a neatly made bed in a cozy, minimalist bedroom. The lighting should be soft and natural. The wall behind the artwork should have a subtle, harmonious tone. Ensure ultra-realistic detail, lifelike textures, and professional photography quality.''),
      (''office'',
       ''Place this framed artwork on the wall of a clean, professional home office. The scene should have good lighting and look photorealistic. The wall behind the artwork should have a subtle, harmonious tone. Ensure ultra-realistic detail, lifelike textures, and professional photography quality.'')]"

section \<open>MockupGenerator: the world the script runs in\<close>

text \<open>
  A JSON document as \<^verbatim>\<open>response.json()\<close> returns it. An object is an association
  list that stands for the parsed dictionary; a key is looked up with \<open>map_of\<close>.
\<close>

datatype json =
    JNull
  | JBool bool
  | JNum int
  | JStr string
  | JArr "json list"
  | JObj "(string \<times> json) list"

text \<open>
  The response object carried by a \<^verbatim>\<open>RequestException\<close>. The script tests the
  object itself (\<^verbatim>\<open>if e.response and ...\<close>), so its Python truth value is part
  of what the script observes. The object is a \<^verbatim>\<open>requests.Response\<close>, whose
  \<^verbatim>\<open>__bool__\<close> returns its \<^verbatim>\<open>ok\<close> property: a response is truthy exactly when
  \<^verbatim>\<open>raise_for_status()\<close> would not raise, and that method raises for the client
  errors 400 to 499 and the server errors 500 to 599.
\<close>

record response =
  status_code :: int

definition truthy :: "response \<Rightarrow> bool" where
  "truthy resp = (\<not> (400 \<le> status_code resp \<and> status_code resp < 600))"

text \<open>
  What one pass through lines 157 to 159 (\<^verbatim>\<open>requests.post\<close>,
  \<^verbatim>\<open>raise_for_status\<close>, \<^verbatim>\<open>response.json()\<close>) can do: deliver the parsed body,
  raise a \<^verbatim>\<open>RequestException\<close> whose \<^verbatim>\<open>response\<close> attribute is \<^verbatim>\<open>None\<close> or a
  response object, or raise any other exception.
\<close>

datatype http_outcome =
    Returned json
  | RequestException "response option"
  | Raised exn

record request =
  req_key :: string
  req_prompt :: string
  req_image :: image

datatype disk_file = ImageFile image | OtherFile

datatype msg =
    ErrorFraming string exn
  | ApiKeyNotSet
  | SendingToAI string
  | SafetyFiltered string
  | InvalidImage string
  | ResponseDump json
  | RateLimitRetry int
  | RateLimitExceeded int
  | RequestFailed
  | StatusCode int
  | ResponseBody
  | Starting
  | WillSkipExisting
  | InputFolderNotFound string
  | NoImagesFound string
  | FoundImages nat
  | Processing string int nat
  | Skipping string string
  | AddingFrame
  | Saved string
  | WaitingScene int
  | WaitingPhoto int
  | AllDone

datatype event = Print msg | Sleep int | HttpPost request

text \<open>
  The environment is what the script reads and never changes: the configured key, the
  listing of the input folder (\<open>None\<close> when the folder does not exist), the remote
  service, which answers the \<open>k\<close>-th POST of the run, and the decoder
  \<^verbatim>\<open>Image.open(BytesIO(base64.b64decode(data)))\<close>.
\<close>

record env =
  API_KEY :: string
  input_listing :: "string list option"
  net :: "nat \<Rightarrow> request \<Rightarrow> http_outcome"
  decode_image :: "json \<Rightarrow> exn + image"

text \<open>
  The state is the file system and the chronological trace of what the script has
  printed, slept and posted.
\<close>

record world =
  files :: "string \<Rightarrow> disk_file option"
  trace :: "event list"

definition emit :: "world \<Rightarrow> event list \<Rightarrow> world" where
  "emit w es = w\<lparr>trace := trace w @ es\<rparr>"

fun is_post :: "event \<Rightarrow> bool" where
  "is_post (HttpPost r) = True"
| "is_post e = False"

fun is_sleep :: "event \<Rightarrow> bool" where
  "is_sleep (Sleep d) = True"
| "is_sleep e = False"

definition posts :: "world \<Rightarrow> nat" where
  "posts w = length (filter is_post (trace w))"

definition sleeps :: "world \<Rightarrow> int list" where
  "sleeps w = concat (map (\<lambda>e. case e of Sleep d \<Rightarrow> [d] | _ \<Rightarrow> []) (trace w))"

text \<open>\<^verbatim>\<open>Image.open(path).convert("RGB")\<close>\<close>

definition open_rgb :: "(string \<Rightarrow> disk_file option) \<Rightarrow> string \<Rightarrow> exn + image" where
  "open_rgb fs path =
     (case fs path of
        None \<Rightarrow> Inl FileNotFoundError
      | Some OtherFile \<Rightarrow> Inl UnidentifiedImageError
      | Some (ImageFile im) \<Rightarrow> Inr im)"

section \<open>MockupGenerator: framing\<close>

text \<open>Lines 73 and 74 of \<^verbatim>\<open>add_frame_and_mat\<close>: the orientation and the target ratio.\<close>

definition is_landscape :: "image \<Rightarrow> bool" where
  "is_landscape photo = (height photo < width photo)"

definition target_aspect_of :: "image \<Rightarrow> rat" where
  "target_aspect_of photo = (if is_landscape photo then fl (3 / 2) else fl (2 / 3))"

text \<open>Lines 70 to 88: the centre crop.\<close>

definition cropped_photo :: "image \<Rightarrow> exn + image" where
  "cropped_photo photo =
     (let iw = width photo; ih = height photo;
          target_aspect = target_aspect_of photo
      in bind_exn (py_truediv iw ih) (\<lambda>img_aspect.
           if fl (1 / 100) < \<bar>fl (img_aspect - target_aspect)\<bar> then
             (if target_aspect < img_aspect then
                (let new_width = py_int (py_mul_float target_aspect ih);
                     offset = (iw - new_width) div 2
                 in crop photo (offset, 0, iw - offset, ih))
              else
                bind_exn (py_div_float iw target_aspect) (\<lambda>q.
                  let new_height = py_int q;
                      offset = (ih - new_height) div 2
                  in crop photo (0, offset, iw, ih - offset)))
           else Inr photo))"

text \<open>Lines 69 to 93: the body of the \<^verbatim>\<open>try\<close>.\<close>

definition framed_photo :: "(string \<Rightarrow> disk_file option) \<Rightarrow> string \<Rightarrow> exn + image" where
  "framed_photo fs image_path =
     bind_exn (open_rgb fs image_path) (\<lambda>photo.
     bind_exn (cropped_photo photo) (\<lambda>cropped.
     bind_exn (expand cropped MAT_THICKNESS MAT_COLOR) (\<lambda>matted_photo.
       expand matted_photo FRAME_THICKNESS FRAME_COLOR)))"

text \<open>\<^verbatim>\<open>add_frame_and_mat(image_path)\<close>: any exception is printed and gives \<^verbatim>\<open>None\<close>.\<close>

definition add_frame_and_mat :: "string \<Rightarrow> world \<Rightarrow> image option \<times> world" where
  "add_frame_and_mat image_path w =
     (case framed_photo (files w) image_path of
        Inr framed \<Rightarrow> (Some framed, w)
      | Inl e \<Rightarrow> (None, emit w [Print (ErrorFraming (basename image_path) e)]))"

section \<open>MockupGenerator: the generative API client\<close>

text \<open>Python's dynamic operations on the parsed response.\<close>

definition dict_get :: "json \<Rightarrow> string \<Rightarrow> json \<Rightarrow> exn + json" where
  "dict_get d k dflt =
     (case d of
        JObj kvs \<Rightarrow> Inr (case map_of kvs k of Some v \<Rightarrow> v | None \<Rightarrow> dflt)
      | _ \<Rightarrow> Inl AttributeError)"

text \<open>\<^verbatim>\<open>v[0]\<close>\<close>

definition subscript0 :: "json \<Rightarrow> exn + json" where
  "subscript0 v =
     (case v of
        JArr xs \<Rightarrow> (case xs of [] \<Rightarrow> Inl IndexError | x # _ \<Rightarrow> Inr x)
      | JStr s \<Rightarrow> (case s of [] \<Rightarrow> Inl IndexError | c # _ \<Rightarrow> Inr (JStr [c]))
      | JObj kvs \<Rightarrow> Inl KeyError
      | _ \<Rightarrow> Inl TypeError)"

text \<open>\<^verbatim>\<open>v[k]\<close> with a string key.\<close>

definition subscript_key :: "json \<Rightarrow> string \<Rightarrow> exn + json" where
  "subscript_key v k =
     (case v of
        JObj kvs \<Rightarrow> (case map_of kvs k of Some x \<Rightarrow> Inr x | None \<Rightarrow> Inl KeyError)
      | _ \<Rightarrow> Inl TypeError)"

definition json_truthy :: "json \<Rightarrow> bool" where
  "json_truthy v =
     (case v of
        JNull \<Rightarrow> False
      | JBool b \<Rightarrow> b
      | JNum n \<Rightarrow> n \<noteq> 0
      | JStr s \<Rightarrow> s \<noteq> []
      | JArr xs \<Rightarrow> xs \<noteq> []
      | JObj kvs \<Rightarrow> kvs \<noteq> [])"

definition is_substring :: "string \<Rightarrow> string \<Rightarrow> bool" where
  "is_substring k s = list_ex (\<lambda>i. take (length k) (drop i s) = k) [0..<Suc (length s)]"

text \<open>\<^verbatim>\<open>k in v\<close> with a string \<open>k\<close>.\<close>

definition contains_key :: "string \<Rightarrow> json \<Rightarrow> exn + bool" where
  "contains_key k v =
     (case v of
        JObj kvs \<Rightarrow> Inr (map_of kvs k \<noteq> None)
      | JArr xs \<Rightarrow> Inr (JStr k \<in> set xs)
      | JStr s \<Rightarrow> Inr (is_substring k s)
      | _ \<Rightarrow> Inl TypeError)"

text \<open>
  Lines 169 to 175: \<open>Inr (Some img)\<close> is the \<^verbatim>\<open>return Image.open(...)\<close>,
  \<open>Inr None\<close> falls through to line 177.
\<close>

definition extract_image :: "env \<Rightarrow> json \<Rightarrow> exn + image option" where
  "extract_image ev content =
     (if \<not> json_truthy content then Inr None
      else bind_exn (contains_key ''parts'' content) (\<lambda>has_parts.
        if \<not> has_parts then Inr None
        else bind_exn (subscript_key content ''parts'') (\<lambda>parts.
          if \<not> json_truthy parts then Inr None
          else bind_exn (subscript_key content ''parts'') (\<lambda>parts'.
               bind_exn (subscript0 parts') (\<lambda>part.
               bind_exn (contains_key ''inlineData'' part) (\<lambda>has_inline.
                 if \<not> has_inline then Inr None
                 else bind_exn (subscript_key part ''inlineData'') (\<lambda>inline.
                      bind_exn (contains_key ''data'' inline) (\<lambda>has_data.
                        if \<not> has_data then Inr None
                        else bind_exn (subscript_key part ''inlineData'') (\<lambda>inline'.
                             bind_exn (subscript_key inline' ''data'') (\<lambda>generated_data.
                             bind_exn (decode_image ev generated_data) (\<lambda>img.
                               Inr (Some img))))))))))))"

text \<open>Lines 162 to 180: what the client does with a parsed response.\<close>

definition read_result ::
  "env \<Rightarrow> string \<Rightarrow> json \<Rightarrow> world \<Rightarrow> (exn + image option) \<times> world" where
  "read_result ev scene_name result w =
     (case bind_exn (dict_get result ''candidates'' (JArr [JObj []])) subscript0 of
        Inl e \<Rightarrow> (Inl e, w)
      | Inr candidate \<Rightarrow>
          (case dict_get candidate ''finishReason'' JNull of
             Inl e \<Rightarrow> (Inl e, w)
           | Inr finish_reason \<Rightarrow>
               if finish_reason = JStr ''SAFETY'' then
                 (Inr None, emit w [Print (SafetyFiltered scene_name)])
               else
                 (case bind_exn (dict_get candidate ''content'' JNull) (extract_image ev) of
                    Inl e \<Rightarrow> (Inl e, w)
                  | Inr (Some img) \<Rightarrow> (Inr (Some img), w)
                  | Inr None \<Rightarrow>
                      (Inr None,
                       emit w [Print (InvalidImage scene_name), Print (ResponseDump result)]))))"

text \<open>\<^verbatim>\<open>e.response and e.response.status_code == 429\<close>\<close>

definition is_rate_limited :: "response option \<Rightarrow> bool" where
  "is_rate_limited r =
     (case r of None \<Rightarrow> False | Some resp \<Rightarrow> truthy resp \<and> status_code resp = 429)"

text \<open>Lines 192 to 196: the report of a failure that is not retried.\<close>

definition report_failure :: "response option \<Rightarrow> event list" where
  "report_failure r =
     Print RequestFailed #
     (case r of
        None \<Rightarrow> []
      | Some resp \<Rightarrow>
          if truthy resp then [Print (StatusCode (status_code resp)), Print ResponseBody]
          else [])"

text \<open>
  Lines 155 to 197: \<^verbatim>\<open>for attempt in range(max_retries)\<close>, as a recursion over the
  attempts that remain. The empty list is the exhausted loop, line 197.
\<close>

fun attempts ::
  "env \<Rightarrow> request \<Rightarrow> string \<Rightarrow> int list \<Rightarrow> world \<Rightarrow> (exn + image option) \<times> world" where
  "attempts ev req scene_name [] w = (Inr None, w)"
| "attempts ev req scene_name (attempt # rest) w =
     (let w1 = emit w [HttpPost req] in
      case net ev (posts w) req of
        Returned result \<Rightarrow> read_result ev scene_name result w1
      | Raised e \<Rightarrow> (Inl e, w1)
      | RequestException r \<Rightarrow>
          if is_rate_limited r then
            (if attempt < max_retries - 1 then
               (let delay = RETRY_DELAY * 2 ^ nat attempt
                in attempts ev req scene_name rest
                     (emit w1 [Print (RateLimitRetry delay), Sleep delay]))
             else (Inr None, emit w1 [Print (RateLimitExceeded max_retries)]))
          else (Inr None, emit w1 (report_failure r)))"

text \<open>\<^verbatim>\<open>generate_mockup_with_gemini(framed_image, scene_prompt, scene_name)\<close>\<close>

definition generate_mockup_with_gemini ::
  "env \<Rightarrow> image \<Rightarrow> string \<Rightarrow> string \<Rightarrow> world \<Rightarrow> (exn + image option) \<times> world" where
  "generate_mockup_with_gemini ev framed_image scene_prompt scene_name w =
     (if API_KEY ev = [] then (Inr None, emit w [Print ApiKeyNotSet])
      else
        attempts ev
          \<lparr>req_key = API_KEY ev, req_prompt = scene_prompt, req_image = framed_image\<rparr>
          scene_name [0..max_retries - 1]
          (emit w [Print (SendingToAI scene_name)]))"

section \<open>MockupGenerator: the main loop\<close>

datatype flow = Next | Break | Raise exn

definition save_path_of :: "string \<Rightarrow> string \<Rightarrow> string" where
  "save_path_of filename scene_name =
     path_join OUTPUT_FOLDER (splitext_root filename @ ''_'' @ scene_name @ ''_mockup.jpg'')"

text \<open>
  Lines 226 to 252: the body of the loop over the scenes, one (photo, scene) unit of
  work. \<open>framed_art\<close> is the variable of that name, \<open>n_scenes\<close> is
  \<^verbatim>\<open>len(BASE_SCENE_PROMPTS)\<close>.
\<close>

definition scene_step ::
  "env \<Rightarrow> string \<Rightarrow> int \<Rightarrow> int \<Rightarrow> string \<times> string \<Rightarrow> image option \<Rightarrow> world
     \<Rightarrow> flow \<times> image option \<times> world" where
  "scene_step ev filename n_scenes j scene framed_art w =
     (case scene of (scene_name, base_prompt) \<Rightarrow>
      let image_path = path_join INPUT_FOLDER filename;
          save_path = save_path_of filename scene_name
      in if files w save_path \<noteq> None then
           (Next, framed_art, emit w [Print (Skipping scene_name filename)])
         else
           (case (case framed_art of
                    Some f \<Rightarrow> (Some f, w)
                  | None \<Rightarrow> add_frame_and_mat image_path (emit w [Print AddingFrame])) of
              (None, w1) \<Rightarrow> (Break, None, w1)
            | (Some framed, w1) \<Rightarrow>
                (case generate_mockup_with_gemini ev framed base_prompt scene_name w1 of
                   (Inl e, w2) \<Rightarrow> (Raise e, Some framed, w2)
                 | (Inr mockup_image, w2) \<Rightarrow>
                     (let w3 = (case mockup_image of
                                  None \<Rightarrow> w2
                                | Some img \<Rightarrow>
                                    emit (w2\<lparr>files := (files w2)(save_path \<mapsto> ImageFile img)\<rparr>)
                                      [Print (Saved save_path)]);
                          w4 = (if j < n_scenes - 1 then
                                  emit w3 [Print (WaitingScene DELAY_BETWEEN_SCENES),
                                           Sleep DELAY_BETWEEN_SCENES]
                                else w3)
                      in (Next, Some framed, w4)))))"

definition enumerate_from0 :: "'a list \<Rightarrow> (int \<times> 'a) list" where
  "enumerate_from0 xs = zip (map int [0..<length xs]) xs"

text \<open>Lines 225 to 252: the loop over the scenes of one photo.\<close>

fun scenes_loop ::
  "env \<Rightarrow> string \<Rightarrow> int \<Rightarrow> (int \<times> string \<times> string) list \<Rightarrow> image option \<Rightarrow> world
     \<Rightarrow> exn option \<times> world" where
  "scenes_loop ev filename n_scenes [] framed_art w = (None, w)"
| "scenes_loop ev filename n_scenes ((j, scene) # rest) framed_art w =
     (case scene_step ev filename n_scenes j scene framed_art w of
        (Next, framed_art', w') \<Rightarrow> scenes_loop ev filename n_scenes rest framed_art' w'
      | (Break, framed_art', w') \<Rightarrow> (None, w')
      | (Raise e, framed_art', w') \<Rightarrow> (Some e, w'))"

text \<open>Lines 218 to 256: the loop over the photos.\<close>

fun photos_loop ::
  "env \<Rightarrow> nat \<Rightarrow> (int \<times> string) list \<Rightarrow> world \<Rightarrow> exn option \<times> world" where
  "photos_loop ev n_files [] w = (None, w)"
| "photos_loop ev n_files ((i, filename) # rest) w =
     (case scenes_loop ev filename (int (length BASE_SCENE_PROMPTS))
             (enumerate_from0 BASE_SCENE_PROMPTS) None
             (emit w [Print (Processing filename (i + 1) n_files)]) of
        (Some e, w') \<Rightarrow> (Some e, w')
      | (None, w') \<Rightarrow>
          photos_loop ev n_files rest
            (if i < int n_files - 1 then
               emit w' [Print (WaitingPhoto DELAY_BETWEEN_PHOTOS), Sleep DELAY_BETWEEN_PHOTOS]
             else w'))"

definition has_image_suffix :: "string \<Rightarrow> bool" where
  "has_image_suffix f =
     list_ex (endswith (lower f)) [''.png'', ''.jpg'', ''.jpeg'', ''.webp'']"

text \<open>\<^verbatim>\<open>main()\<close>; the result is the exception that ended the run, if any.\<close>

definition main :: "env \<Rightarrow> world \<Rightarrow> exn option \<times> world" where
  "main ev w =
     (let w0 = emit w [Print Starting, Print WillSkipExisting] in
      case input_listing ev of
        None \<Rightarrow> (None, emit w0 [Print (InputFolderNotFound INPUT_FOLDER)])
      | Some names \<Rightarrow>
          (let image_files = filter has_image_suffix names in
           if image_files = [] then (None, emit w0 [Print (NoImagesFound INPUT_FOLDER)])
           else
             (case photos_loop ev (length image_files) (enumerate_from0 image_files)
                     (emit w0 [Print (FoundImages (length image_files))]) of
                (Some e, w') \<Rightarrow> (Some e, w')
              | (None, w') \<Rightarrow> (None, emit w' [Print AllDone]))))"

section \<open>BannerCollageMaker: the grid compositor\<close>

definition FAVS_FOLDER :: string where "FAVS_FOLDER = ''Favs''"
definition W :: int where "W = 2560"
definition H :: int where "H = 1440"
definition total_cols :: int where "total_cols = 15"
definition total_rows :: int where "total_rows = 6"
definition center_cols :: int where "center_cols = 7"
definition center_rows :: int where "center_rows = 2"

text \<open>\<^verbatim>\<open>is_image(f)\<close>, lines 42 to 44.\<close>

definition is_image :: "string \<Rightarrow> bool" where
  "is_image f =
     (let f = lower f
      in list_ex (endswith f) [''.jpg'', ''.jpeg'', ''.png'', ''.webp'']
         \<and> \<not> startswith (basename f) ''._'')"

text \<open>
  \<^verbatim>\<open>random.shuffle(x)\<close> is the library's loop
  \<^verbatim>\<open>for i in reversed(range(1, len(x))): j = randbelow(i + 1); x[i], x[j] = x[j], x[i]\<close>.
  The generator is a sequence of raw draws \<open>rng\<close> and the number \<open>k\<close> of draws
  consumed; \<^verbatim>\<open>randbelow(n)\<close> reduces the next draw modulo \<open>n\<close>.
\<close>

definition swap :: "nat \<Rightarrow> nat \<Rightarrow> 'a list \<Rightarrow> 'a list" where
  "swap i j xs = (xs[i := xs ! j])[j := xs ! i]"

fun shuffle_from :: "(nat \<Rightarrow> nat) \<Rightarrow> nat \<Rightarrow> nat \<Rightarrow> 'a list \<Rightarrow> 'a list \<times> nat" where
  "shuffle_from rng k 0 xs = (xs, k)"
| "shuffle_from rng k (Suc i) xs =
     (let j = rng k mod (Suc i + 1) in shuffle_from rng (k + 1) i (swap (Suc i) j xs))"

definition shuffle :: "(nat \<Rightarrow> nat) \<Rightarrow> nat \<Rightarrow> 'a list \<Rightarrow> 'a list \<times> nat" where
  "shuffle rng k xs = shuffle_from rng k (length xs - 1) xs"

datatype pool = Favourites | General

text \<open>
  What the loop body of lines 135 to 150 does for one cell: the pool and the path it
  took, where the tile is pasted, and the tile itself, \<open>None\<close> when opening or fitting
  the image raised and the cell was left blank.
\<close>

record placement =
  cell_row :: int
  cell_col :: int
  source_pool :: pool
  img_path :: string
  paste_x :: int
  paste_y :: int
  tile :: "image option"

record geometry =
  grid_w :: int
  tile_w :: int
  tile_h :: int
  start_col :: int
  end_col :: int
  start_row :: int
  end_row :: int

definition in_center :: "geometry \<Rightarrow> int \<Rightarrow> int \<Rightarrow> bool" where
  "in_center g r c =
     (start_row g \<le> r \<and> r < end_row g \<and> start_col g \<le> c \<and> c < end_col g)"

definition make_tile :: "(string \<Rightarrow> disk_file option) \<Rightarrow> geometry \<Rightarrow> string \<Rightarrow> image option" where
  "make_tile fs g path =
     (case bind_exn (open_rgb fs path) (\<lambda>im. fit_crop im (tile_w g) (tile_h g)) of
        Inr t \<Rightarrow> Some t
      | Inl e \<Rightarrow> None)"

definition place ::
  "(string \<Rightarrow> disk_file option) \<Rightarrow> geometry \<Rightarrow> int \<Rightarrow> int \<Rightarrow> pool \<Rightarrow> string \<Rightarrow> placement" where
  "place fs g r c src path =
     \<lparr>cell_row = r, cell_col = c, source_pool = src, img_path = path,
      paste_x = grid_w g + c * (tile_w g + grid_w g),
      paste_y = grid_w g + r * (tile_h g + grid_w g),
      tile = make_tile fs g path\<rparr>"

text \<open>The cell a placement belongs to.\<close>

definition cell_of :: "placement \<Rightarrow> int \<times> int" where
  "cell_of p = (cell_row p, cell_col p)"

text \<open>
  Lines 132 to 150: the two nested loops, as a recursion over the cells in the order the
  loops visit them. An index beyond a list raises \<^verbatim>\<open>IndexError\<close>.
\<close>

fun place_cells ::
  "(string \<Rightarrow> disk_file option) \<Rightarrow> geometry \<Rightarrow> string list \<Rightarrow> string list
     \<Rightarrow> (int \<times> int) list \<Rightarrow> nat \<Rightarrow> nat \<Rightarrow> exn + placement list" where
  "place_cells fs g favs_to_place others_to_place [] fav_idx other_idx = Inr []"
| "place_cells fs g favs_to_place others_to_place ((r, c) # cells) fav_idx other_idx =
     (if in_center g r c then
        (if fav_idx < length favs_to_place then
           bind_exn
             (place_cells fs g favs_to_place others_to_place cells (fav_idx + 1) other_idx)
             (\<lambda>ps. Inr (place fs g r c Favourites (favs_to_place ! fav_idx) # ps))
         else Inl IndexError)
      else
        (if other_idx < length others_to_place then
           bind_exn
             (place_cells fs g favs_to_place others_to_place cells fav_idx (other_idx + 1))
             (\<lambda>ps. Inr (place fs g r c General (others_to_place ! other_idx) # ps))
         else Inl IndexError))"

text \<open>\<^verbatim>\<open>for r in range(total_rows): for c in range(total_cols)\<close>\<close>

definition grid_cells :: "(int \<times> int) list" where
  "grid_cells = concat (map (\<lambda>r. map (\<lambda>c. (r, c)) [0..total_cols - 1]) [0..total_rows - 1])"

definition grid_geometry :: "string \<Rightarrow> geometry" where
  "grid_geometry style =
     (let gw = (if style = ''cinematic'' then 6 else 16);
          sc = (total_cols - center_cols) div 2;
          sr = (total_rows - center_rows) div 2
      in \<lparr>grid_w = gw,
          tile_w = (W - (total_cols + 1) * gw) div total_cols,
          tile_h = (H - (total_rows + 1) * gw) div total_rows,
          start_col = sc, end_col = sc + center_cols,
          start_row = sr, end_row = sr + center_rows\<rparr>)"

text \<open>Lines 103 to 105: the two pools.\<close>

definition favs_of :: "string list \<Rightarrow> string list" where
  "favs_of names =
     map (path_join FAVS_FOLDER) (filter (\<lambda>f. is_image (path_join FAVS_FOLDER f)) names)"

definition others_of :: "string list \<Rightarrow> string list \<Rightarrow> string list" where
  "others_of favs all_imgs =
     (let fav_names = set (map basename favs)
      in filter (\<lambda>p. basename p \<notin> fav_names) all_imgs)"

text \<open>
  \<^verbatim>\<open>make_banner(style, tone, out_name)\<close>, lines 100 to 150: the assignment of images to
  the cells of the grid. \<open>favs_listing\<close> is \<^verbatim>\<open>os.listdir(FAVS_FOLDER)\<close>, \<open>None\<close>
  when the folder does not exist. The vignette, the logo and the encoder that follow
  work on pixels and are outside this model.
\<close>

definition make_banner_grid ::
  "(string \<Rightarrow> disk_file option) \<Rightarrow> (nat \<Rightarrow> nat) \<Rightarrow> string list option \<Rightarrow> string list
     \<Rightarrow> string \<Rightarrow> exn + placement list" where
  "make_banner_grid fs rng favs_listing all_imgs style =
     (case favs_listing of
        None \<Rightarrow> Inl FileNotFoundError
      | Some names \<Rightarrow>
          (let favs = favs_of names; others = others_of favs all_imgs
           in if favs = [] then Inl ValueError
              else if others = [] then Inl ValueError
              else
                (let g = grid_geometry style;
                     center_slots = center_cols * center_rows;
                     outer_slots = total_cols * total_rows - center_slots
                 in bind_exn (to_place favs center_slots) (\<lambda>favs_to_place.
                    bind_exn (to_place others outer_slots) (\<lambda>others_to_place.
                      (case shuffle rng 0 favs_to_place of
                         (favs_shuffled, k) \<Rightarrow>
                           (case shuffle rng k others_to_place of
                              (others_shuffled, k') \<Rightarrow>
                                place_cells fs g favs_shuffled others_shuffled
                                  grid_cells 0 0)))))))"

section \<open>Example inputs\<close>

text \<open>A disk that holds one landscape photo in the input folder, and a world on it.\<close>

definition one_photo :: "string \<Rightarrow> disk_file option" where
  "one_photo =
     (\<lambda>p. if p = ''Favs/a.jpg'' then Some (ImageFile \<lparr>width = 4000, height = 3000\<rparr>)
          else None)"

definition fresh_world :: world where
  "fresh_world = \<lparr>files = one_photo, trace = []\<rparr>"

text \<open>A mocked service: canned outcomes by the number of the POST, and canned responses.\<close>

definition too_many_requests :: http_outcome where
  "too_many_requests = RequestException (Some \<lparr>status_code = 429\<rparr>)"

definition safety_response :: json where
  "safety_response =
     JObj [(''candidates'', JArr [JObj [(''finishReason'', JStr ''SAFETY'')]])]"

text \<open>The base64 text of a PNG file of one pixel, and a response that carries it.\<close>

definition one_pixel_png :: string where
  "one_pixel_png =
     ''iVBORw0KGgoAAAANSUhEUgAAAAEAAAABCAYAAAAfFcSJAAAADUlEQVR42mNkYPhfDwAChwGA60e6kgAAAABJRU5ErkJggg==''"

definition image_response :: json where
  "image_response =
     JObj [(''candidates'',
            JArr [JObj [(''finishReason'', JStr ''STOP''),
                        (''content'',
                         JObj [(''parts'',
                                JArr [JObj [(''inlineData'',
                                            JObj [(''mimeType'', JStr ''image/png''),
                                                  (''data'', JStr one_pixel_png)])]])])]])]"

definition mock_env :: "string \<Rightarrow> (nat \<Rightarrow> http_outcome) \<Rightarrow> env" where
  "mock_env key outcomes =
     \<lparr>API_KEY = key, input_listing = Some [''a.jpg''],
      net = (\<lambda>k req. outcomes k),
      decode_image = (\<lambda>d. if d = JStr one_pixel_png then Inr \<lparr>width = 1, height = 1\<rparr>
                           else Inl DecodeError)\<rparr>"

definition framed_a :: image where
  "framed_a = \<lparr>width = 4260, height = 2926\<rparr>"

section \<open>Properties of the floating-point model\<close>

lemma bitlen_bounds:
  "0 < n \<Longrightarrow> 2 ^ nat (bitlen n - 1) \<le> n \<and> n < 2 ^ nat (bitlen n) \<and> 0 < bitlen n"
proof (induction n rule: bitlen.induct)
  case (1 n)
  show ?case
  proof (cases "n = 1")
    case True
    have "bitlen (1::int) = 1"
      by (simp add: bitlen.simps [of 1] bitlen.simps [of 0])
    with True show ?thesis by simp
  next
    case False
    with "1.prems" have pos: "0 < n div 2" by simp
    from "1.IH" [OF _ pos] "1.prems"
    have ih: "2 ^ nat (bitlen (n div 2) - 1) \<le> n div 2"
      "n div 2 < 2 ^ nat (bitlen (n div 2))" "0 < bitlen (n div 2)"
      by simp_all
    have eq: "bitlen n = bitlen (n div 2) + 1"
      using "1.prems" by (simp add: bitlen.simps [of n])
    have e1: "nat (bitlen n - 1) = Suc (nat (bitlen (n div 2) - 1))"
      using ih(3) eq by (simp add: nat_diff_distrib Suc_nat_eq_nat_zadd1)
    have e2: "nat (bitlen n) = Suc (nat (bitlen (n div 2)))"
      using ih(3) eq by (simp add: nat_add_distrib)
    have "2 * 2 ^ nat (bitlen (n div 2) - 1) \<le> n"
      using ih(1) by linarith
    moreover have "n < 2 * 2 ^ nat (bitlen (n div 2))"
      using ih(2) by linarith
    ultimately show ?thesis
      using e1 e2 eq ih(3) by simp
  qed
qed

lemma binexp_le:
  assumes "0 < q"
  shows "2 powi (binexp q) \<le> q"
proof -
  obtain a b where ab: "quotient_of q = (a, b)" by (cases "quotient_of q")
  have q: "q = of_int a / of_int b" using ab by (rule quotient_of_div)
  have b: "0 < b" using ab by (rule quotient_of_denom_pos)
  have a: "0 < a" using assms q b by (simp add: zero_less_divide_iff)
  define e0 where "e0 = bitlen a - bitlen b"
  have be: "binexp q = (if 2 powi e0 \<le> q then e0 else e0 - 1)"
    by (simp add: binexp_def ab e0_def Let_def)
  show ?thesis
  proof (cases "2 powi e0 \<le> q")
    case True
    then show ?thesis by (simp add: be)
  next
    case False
    from bitlen_bounds [OF a] have la: "2 ^ nat (bitlen a - 1) \<le> a" "0 < bitlen a" by simp_all
    from bitlen_bounds [OF b] have lb: "b < 2 ^ nat (bitlen b)" "0 < bitlen b" by simp_all
    have ra: "(2::rat) ^ nat (bitlen a - 1) \<le> of_int a"
    proof -
      have "(of_int (2 ^ nat (bitlen a - 1)) :: rat) \<le> of_int a"
        using la(1) by (simp only: of_int_le_iff)
      then show ?thesis by simp
    qed
    have rb: "(of_int b :: rat) \<le> 2 ^ nat (bitlen b)"
    proof -
      have "(of_int b :: rat) \<le> of_int (2 ^ nat (bitlen b))"
        using lb(1) by (simp only: of_int_le_iff)
      then show ?thesis by simp
    qed
    have "(2::rat) powi (e0 - 1) = 2 powi (bitlen a - 1) / 2 powi (bitlen b)"
      by (simp add: e0_def power_int_diff)
    also have "\<dots> = 2 ^ nat (bitlen a - 1) / 2 ^ nat (bitlen b)"
      using la(2) lb(2) by (simp add: power_int_def)
    also have "\<dots> \<le> of_int a / of_int b"
      using ra rb a b by (intro frac_le) simp_all
    finally have "2 powi (e0 - 1) \<le> q" unfolding q .
    with False show ?thesis by (simp add: be)
  qed
qed

lemma round_half_even_ge: "\<lfloor>s\<rfloor> \<le> round_half_even s"
  by (simp add: round_half_even_def Let_def)

lemma fl_pos_pos:
  assumes "0 < q"
  shows "0 < fl_pos q"
proof -
  define e where "e = binexp q"
  have "2 powi e \<le> q" unfolding e_def using assms by (rule binexp_le)
  then have "2 powi e * 2 powi (52 - e) \<le> q * 2 powi (52 - e)"
    by (intro mult_right_mono) simp_all
  moreover have "(2::rat) powi e * 2 powi (52 - e) = 2 powi 52"
    by (simp add: power_int_add [symmetric])
  ultimately have "(1::rat) \<le> q * 2 powi (52 - e)"
    by (simp add: power_int_def)
  then have "1 \<le> \<lfloor>q * 2 powi (52 - e)\<rfloor>" by (simp add: le_floor_iff)
  with round_half_even_ge [of "q * 2 powi (52 - e)"]
  have "0 < round_half_even (q * 2 powi (52 - e))" by linarith
  then have "(0::rat) < of_int (round_half_even (q * 2 powi (52 - e))) * 2 powi (e - 52)"
    by (intro mult_pos_pos) simp_all
  then show ?thesis by (simp add: fl_pos_def e_def Let_def)
qed

lemma fl_positive: "0 < q \<Longrightarrow> 0 < fl q"
  using fl_pos_pos [of q] by (simp add: fl_def)

lemma fl_nonneg: "0 \<le> q \<Longrightarrow> 0 \<le> fl q"
  using fl_positive [of q] by (cases "q = 0") (simp_all add: fl_def)

lemma py_int_nonneg: "0 \<le> x \<Longrightarrow> 0 \<le> py_int x"
  by (simp add: py_int_def)

lemma length_list_repeat:
  "0 \<le> k \<Longrightarrow> int (length (list_repeat xs k)) = k * int (length xs)"
proof -
  have "length (concat (replicate m xs)) = m * length xs" for m
    by (induction m) simp_all
  then show "0 \<le> k \<Longrightarrow> int (length (list_repeat xs k)) = k * int (length xs)"
    by (simp add: list_repeat_def)
qed

lemma repeat_count_covers:
  assumes "0 < (l::int)" "0 \<le> n"
  shows "n < (n div l + 1) * l" "0 \<le> n div l + 1"
proof -
  have "n mod l < l" using assms(1) by simp
  then have "n < l * (n div l) + l" using mult_div_mod_eq [of l n] by linarith
  then show "n < (n div l + 1) * l" by (simp add: algebra_simps)
  show "0 \<le> n div l + 1" using assms by (simp add: pos_imp_zdiv_nonneg_iff)
qed

section \<open>Pool expansion\<close>

text \<open>
  Claim C6. For every pool of at least one element and every slot count \<open>n \<ge> 0\<close>, the
  pool repeated \<open>n // len(pool) + 1\<close> times has at least \<open>n\<close> elements, and the
  slice \<open>[:n]\<close> of it has exactly \<open>n\<close>.
\<close>

theorem pool_expansion_covers_slots:
  assumes "pool \<noteq> []" and "0 \<le> n"
  shows "n \<le> int (length (list_repeat pool (n div int (length pool) + 1)))
         \<and> (\<exists>xs. to_place pool n = Inr xs \<and> int (length xs) = n)"
proof -
  have l: "0 < int (length pool)" using assms(1) by simp
  note c = repeat_count_covers [OF l assms(2)]
  have len: "n \<le> int (length (list_repeat pool (n div int (length pool) + 1)))"
    using c by (simp add: length_list_repeat)
  have "to_place pool n = Inr (slice_to (list_repeat pool (n div int (length pool) + 1)) n)"
    using assms(1) by (simp add: to_place_def repeated_pool_def bind_exn_def)
  moreover have "int (length (slice_to (list_repeat pool (n div int (length pool) + 1)) n)) = n"
    using len assms(2) by (simp add: slice_to_def)
  ultimately show ?thesis using len by simp
qed

theorem pool_expansion_covers_slots_witness:
  "int (length (list_repeat [''a.jpg'', ''b.jpg'', ''c.jpg''] (14 div 3 + 1))) = 15
   \<and> to_place [''a.jpg'', ''b.jpg'', ''c.jpg''] 2 = Inr [''a.jpg'', ''b.jpg'']"
  using pool_expansion_covers_slots [of "[''a.jpg'', ''b.jpg'', ''c.jpg'']" 14]
  by (simp add: to_place_def repeated_pool_def bind_exn_def list_repeat_def slice_to_def
      eval_nat_numeral)

section \<open>Fitting an image to a tile\<close>

lemma crop_width_ok:
  assumes "0 \<le> nw" "0 \<le> ih"
  shows "crop img ((iw - nw) div 2, 0, iw - (iw - nw) div 2, ih)
         = Inr \<lparr>width = iw - 2 * ((iw - nw) div 2), height = ih\<rparr>"
proof -
  have "2 * ((iw - nw) div 2) \<le> iw - nw" by simp
  with assms have "(iw - nw) div 2 \<le> iw - (iw - nw) div 2" by linarith
  with assms show ?thesis by (simp add: crop_def)
qed

lemma crop_height_ok:
  assumes "0 \<le> nh" "0 \<le> iw"
  shows "crop img (0, (ih - nh) div 2, iw, ih - (ih - nh) div 2)
         = Inr \<lparr>width = iw, height = ih - 2 * ((ih - nh) div 2)\<rparr>"
proof -
  have "2 * ((ih - nh) div 2) \<le> ih - nh" by simp
  with assms have "(ih - nh) div 2 \<le> ih - (ih - nh) div 2" by linarith
  with assms show ?thesis by (simp add: crop_def)
qed

lemma resize_dims:
  assumes "1 \<le> tw" "1 \<le> th"
  shows "\<exists>out. resize im (tw, th) = Inr out \<and> width out = tw \<and> height out = th"
  using assms by (auto simp: resize_def)

text \<open>
  Claim C4. For every image of positive width and height and every positive target
  width and height, \<open>fit_crop\<close> returns an image, and its size is exactly the target
  size, whatever the aspect ratio of the input.
\<close>

theorem fit_crop_exact_dims:
  assumes "0 < width img" and "0 < height img" and "0 < tw" and "0 < th"
  shows "\<exists>out. fit_crop img tw th = Inr out \<and> width out = tw \<and> height out = th"
proof -
  define ta where "ta = fl (of_int tw / of_int th)"
  define ia where "ia = fl (of_int (width img) / of_int (height img))"
  have ta_pos: "0 < ta" unfolding ta_def using assms by (intro fl_positive) simp
  have d1: "py_truediv tw th = Inr ta" using assms by (simp add: py_truediv_def ta_def)
  have d2: "py_truediv (width img) (height img) = Inr ia"
    using assms by (simp add: py_truediv_def ia_def)
  show ?thesis
  proof (cases "ta < ia")
    case True
    have "0 \<le> py_int (py_mul_float ta (height img))"
      unfolding py_mul_float_def using ta_pos assms
      by (intro py_int_nonneg fl_nonneg) simp
    from crop_width_ok [OF this, of "height img" img "width img"] assms
    have "fit_crop img tw th =
          resize \<lparr>width = width img - 2 * ((width img - py_int (py_mul_float ta (height img))) div 2),
                  height = height img\<rparr> (tw, th)"
      using True by (simp add: fit_crop_def d1 d2 bind_exn_def Let_def)
    then show ?thesis using resize_dims [of tw th] assms by simp
  next
    case False
    have q: "py_div_float (width img) ta = Inr (fl (of_int (width img) / ta))"
      using ta_pos by (simp add: py_div_float_def)
    have "0 \<le> py_int (fl (of_int (width img) / ta))"
      using ta_pos assms by (intro py_int_nonneg fl_nonneg) simp
    from crop_height_ok [OF this, of "width img" img "height img"] assms
    have "fit_crop img tw th =
          resize \<lparr>width = width img,
                  height = height img - 2 * ((height img - py_int (fl (of_int (width img) / ta))) div 2)\<rparr>
            (tw, th)"
      using False by (simp add: fit_crop_def d1 d2 q bind_exn_def Let_def)
    then show ?thesis using resize_dims [of tw th] assms by simp
  qed
qed

theorem fit_crop_exact_dims_witness:
  "fit_crop \<lparr>width = 4000, height = 3000\<rparr> 164 228 = Inr \<lparr>width = 164, height = 228\<rparr>"
proof -
  from fit_crop_exact_dims [of "\<lparr>width = 4000, height = 3000\<rparr>" 164 228]
  obtain out where "fit_crop \<lparr>width = 4000, height = 3000\<rparr> 164 228 = Inr out"
    and "width out = 164" and "height out = 228"
    by auto
  then show ?thesis by (cases out) simp
qed

section \<open>Framing a photo\<close>

lemma expand_dims:
  assumes "expand im b c = Inr out"
  shows "width out = width im + 2 * b" "height out = height im + 2 * b"
  using assms by (auto simp: expand_def Let_def split: if_splits)

text \<open>
  Claim C5. Whenever \<open>add_frame_and_mat\<close> returns a framed image, that image is the
  centre-cropped photo expanded by the mat and then by the frame, and on each axis its
  size is the cropped size plus \<open>2 * (MAT_THICKNESS + FRAME_THICKNESS) = 260\<close>.
\<close>

theorem frame_and_mat_dims:
  assumes "add_frame_and_mat image_path w = (Some framed, w')"
  shows "\<exists>photo cropped matted.
           open_rgb (files w) image_path = Inr photo
         \<and> cropped_photo photo = Inr cropped
         \<and> expand cropped MAT_THICKNESS MAT_COLOR = Inr matted
         \<and> expand matted FRAME_THICKNESS FRAME_COLOR = Inr framed
         \<and> width framed = width cropped + 2 * (MAT_THICKNESS + FRAME_THICKNESS)
         \<and> height framed = height cropped + 2 * (MAT_THICKNESS + FRAME_THICKNESS)
         \<and> 2 * (MAT_THICKNESS + FRAME_THICKNESS) = 260"
proof -
  from assms have fp: "framed_photo (files w) image_path = Inr framed"
    by (auto simp: add_frame_and_mat_def split: sum.splits)
  then obtain photo where p: "open_rgb (files w) image_path = Inr photo"
    by (auto simp: framed_photo_def bind_exn_def split: sum.splits)
  with fp obtain cropped where c: "cropped_photo photo = Inr cropped"
    by (auto simp: framed_photo_def bind_exn_def split: sum.splits)
  with fp p obtain matted where m: "expand cropped MAT_THICKNESS MAT_COLOR = Inr matted"
    by (auto simp: framed_photo_def bind_exn_def split: sum.splits)
  with fp p c have f: "expand matted FRAME_THICKNESS FRAME_COLOR = Inr framed"
    by (simp add: framed_photo_def bind_exn_def)
  from expand_dims [OF m] expand_dims [OF f]
  have "width framed = width cropped + 2 * (MAT_THICKNESS + FRAME_THICKNESS)"
    and "height framed = height cropped + 2 * (MAT_THICKNESS + FRAME_THICKNESS)"
    by simp_all
  moreover have "2 * (MAT_THICKNESS + FRAME_THICKNESS) = 260"
    by (simp add: MAT_THICKNESS_def FRAME_THICKNESS_def)
  ultimately show ?thesis using p c m f by blast
qed

lemma one_photo_framed:
  "fst (add_frame_and_mat ''Favs/a.jpg'' fresh_world) = Some \<lparr>width = 4260, height = 2926\<rparr>"
  by code_simp

lemma one_photo_cropped:
  "cropped_photo \<lparr>width = 4000, height = 3000\<rparr> = Inr \<lparr>width = 4000, height = 2666\<rparr>"
  by code_simp

theorem frame_and_mat_dims_witness:
  "fst (add_frame_and_mat ''Favs/a.jpg'' fresh_world) = Some \<lparr>width = 4260, height = 2926\<rparr>
   \<and> cropped_photo \<lparr>width = 4000, height = 3000\<rparr> = Inr \<lparr>width = 4000, height = 2666\<rparr>
   \<and> (4260::int) = 4000 + 2 * (MAT_THICKNESS + FRAME_THICKNESS)
   \<and> (2926::int) = 2666 + 2 * (MAT_THICKNESS + FRAME_THICKNESS)"
proof -
  have h: "add_frame_and_mat ''Favs/a.jpg'' fresh_world =
           (Some \<lparr>width = 4260, height = 2926\<rparr>,
            snd (add_frame_and_mat ''Favs/a.jpg'' fresh_world))"
    using one_photo_framed by (simp add: prod_eq_iff)
  from frame_and_mat_dims [OF h] obtain photo cropped where
    p: "open_rgb (files fresh_world) ''Favs/a.jpg'' = Inr photo" and
    c: "cropped_photo photo = Inr cropped" and
    d: "(4260::int) = width cropped + 2 * (MAT_THICKNESS + FRAME_THICKNESS)"
       "(2926::int) = height cropped + 2 * (MAT_THICKNESS + FRAME_THICKNESS)"
    by auto
  from p have "photo = \<lparr>width = 4000, height = 3000\<rparr>"
    by (simp add: open_rgb_def fresh_world_def one_photo_def)
  with c d one_photo_cropped one_photo_framed show ?thesis
    by (simp add: MAT_THICKNESS_def FRAME_THICKNESS_def)
qed

section \<open>Square photos\<close>

lemma fl_one: "fl 1 = 1"
  by code_simp

lemma two_thirds_below_one: "fl (2 / 3) < 1"
  by code_simp

lemma two_thirds_far_from_one: "fl (1 / 100) < \<bar>fl (1 - fl (2 / 3))\<bar>"
  by code_simp

lemma two_thirds_nonneg: "0 \<le> fl (2 / 3)"
  by (rule fl_nonneg) simp

text \<open>
  Claim C9, as amended. A square photo of side \<open>n > 0\<close> is not landscape, its target
  ratio is the float \<open>2/3\<close>, and its width is trimmed by the same
  \<open>offset = (n - int((2/3) * n)) // 2\<close> on both sides: the crop box is
  \<open>(offset, 0, n - offset, n)\<close>, so the cropped width is \<open>n - 2 * offset\<close>, which is
  \<open>int((2/3) * n)\<close> or one pixel more, and the height stays \<open>n\<close>. The mat and the frame
  are applied to that crop.
\<close>

theorem square_photo_crop:
  assumes "open_rgb fs image_path = Inr photo"
    and "width photo = n" and "height photo = n" and "0 < n"
  shows "let new_width = py_int (py_mul_float (fl (2 / 3)) n);
             offset = (n - new_width) div 2
         in \<not> is_landscape photo
          \<and> target_aspect_of photo = fl (2 / 3)
          \<and> cropped_photo photo = crop photo (offset, 0, n - offset, n)
          \<and> cropped_photo photo = Inr \<lparr>width = n - 2 * offset, height = n\<rparr>
          \<and> (n - 2 * offset = new_width \<or> n - 2 * offset = new_width + 1)
          \<and> framed_photo fs image_path
              = Inr \<lparr>width = n - 2 * offset + 260, height = n + 260\<rparr>"
proof -
  define new_width where "new_width = py_int (py_mul_float (fl (2 / 3)) n)"
  define offset where "offset = (n - new_width) div 2"
  have nl: "\<not> is_landscape photo" using assms by (simp add: is_landscape_def)
  then have ta: "target_aspect_of photo = fl (2 / 3)" by (simp add: target_aspect_of_def)
  have ia: "py_truediv n n = Inr 1"
    using assms(4) by (simp add: py_truediv_def fl_one)
  have cp: "cropped_photo photo = crop photo (offset, 0, n - offset, n)"
    using assms(2,3) two_thirds_below_one two_thirds_far_from_one
    by (simp add: cropped_photo_def ta ia bind_exn_def Let_def new_width_def offset_def)
  have nw: "0 \<le> new_width"
    unfolding new_width_def py_mul_float_def
    using two_thirds_nonneg assms(4) by (intro py_int_nonneg fl_nonneg) simp
  from crop_width_ok [OF nw, of n photo n] assms(4)
  have cr: "crop photo (offset, 0, n - offset, n) = Inr \<lparr>width = n - 2 * offset, height = n\<rparr>"
    by (simp add: offset_def)
  have par: "n - 2 * offset = new_width \<or> n - 2 * offset = new_width + 1"
    unfolding offset_def by presburger
  have cw: "0 \<le> n - 2 * offset" using par nw by linarith
  have fp: "framed_photo fs image_path = Inr \<lparr>width = n - 2 * offset + 260, height = n + 260\<rparr>"
    using assms(1,4) cw
    by (simp add: framed_photo_def bind_exn_def cp cr expand_def Let_def
        MAT_THICKNESS_def FRAME_THICKNESS_def)
  show ?thesis
    using nl ta cp cr par fp by (simp add: Let_def new_width_def offset_def)
qed

lemma nine_new_width: "py_int (py_mul_float (fl (2 / 3)) 9) = 6"
  by code_simp

theorem square_photo_crop_witness:
  "cropped_photo \<lparr>width = 9, height = 9\<rparr> = Inr \<lparr>width = 7, height = 9\<rparr>
   \<and> framed_photo (\<lambda>p. Some (ImageFile \<lparr>width = 9, height = 9\<rparr>)) ''Favs/sq.jpg''
       = Inr \<lparr>width = 267, height = 269\<rparr>"
proof -
  have o: "open_rgb (\<lambda>p. Some (ImageFile \<lparr>width = 9, height = 9\<rparr>)) ''Favs/sq.jpg''
           = Inr \<lparr>width = 9, height = 9\<rparr>"
    by (simp add: open_rgb_def)
  from square_photo_crop [OF o, of 9] show ?thesis
    by (simp add: nine_new_width Let_def crop_def)
qed

text \<open>
  Claim C9 as it is written fails on a photo of 9 by 9 pixels: \<open>int((2/3) * 9)\<close> is 6,
  but the crop box is \<open>(1, 0, 8, 9)\<close> and the cropped photo is 7 pixels wide.
\<close>

theorem square_photo_crop_counterexample:
  "py_int (py_mul_float (target_aspect_of \<lparr>width = 9, height = 9\<rparr>) 9) = 6
   \<and> cropped_photo \<lparr>width = 9, height = 9\<rparr> = Inr \<lparr>width = 7, height = 9\<rparr>"
  by code_simp

section \<open>Traces\<close>

lemma files_emit: "files (emit w es) = files w"
  by (simp add: emit_def)

lemma trace_emit: "trace (emit w es) = trace w @ es"
  by (simp add: emit_def)

lemma emit_emit: "emit (emit w es) es' = emit w (es @ es')"
  by (simp add: emit_def)

lemma posts_emit: "posts (emit w es) = posts w + length (filter is_post es)"
  by (simp add: posts_def emit_def)

lemma sleeps_emit:
  "sleeps (emit w es) = sleeps w @ concat (map (\<lambda>e. case e of Sleep d \<Rightarrow> [d] | _ \<Rightarrow> []) es)"
  by (simp add: sleeps_def emit_def)

lemma attempt_range: "[0..max_retries - 1] = [0, 1, 2]"
  by code_simp

lemma three_attempts: "[0..2] = [0, 1, 2]"
  by code_simp

section \<open>The client without a key\<close>

text \<open>
  Claim C10. With an empty \<open>API_KEY\<close>, \<open>generate_mockup_with_gemini\<close> returns
  \<open>None\<close> for every framed image, prompt and scene name; it only prints the error, so
  it posts nothing and does not sleep.
\<close>

theorem no_key_no_request:
  assumes "API_KEY ev = []"
  shows "generate_mockup_with_gemini ev framed_image scene_prompt scene_name w
           = (Inr None, emit w [Print ApiKeyNotSet])
         \<and> posts (emit w [Print ApiKeyNotSet]) = posts w
         \<and> sleeps (emit w [Print ApiKeyNotSet]) = sleeps w
         \<and> files (emit w [Print ApiKeyNotSet]) = files w"
  using assms
  by (simp add: generate_mockup_with_gemini_def posts_emit sleeps_emit files_emit)


theorem no_key_no_request_witness:
  "generate_mockup_with_gemini (mock_env [] (\<lambda>k. Returned image_response)) framed_a
      ''prompt'' ''bedroom'' fresh_world
    = (Inr None, emit fresh_world [Print ApiKeyNotSet])
   \<and> posts (emit fresh_world [Print ApiKeyNotSet]) = 0"
  using no_key_no_request [of "mock_env [] (\<lambda>k. Returned image_response)" framed_a
      "''prompt''" "''bedroom''" fresh_world]
  by (simp add: mock_env_def posts_def fresh_world_def)

section \<open>Safety blocks\<close>

lemma read_result_safety:
  assumes "map_of kvs ''candidates'' = Some (JArr (JObj cs # cs_rest))"
    and "map_of cs ''finishReason'' = Some (JStr ''SAFETY'')"
  shows "read_result ev scene_name (JObj kvs) w
         = (Inr None, emit w [Print (SafetyFiltered scene_name)])"
  using assms by (simp add: read_result_def dict_get_def subscript0_def bind_exn_def)

lemma attempts_safety:
  assumes "net ev (posts w) req = Returned (JObj kvs)"
    and "map_of kvs ''candidates'' = Some (JArr (JObj cs # cs_rest))"
    and "map_of cs ''finishReason'' = Some (JStr ''SAFETY'')"
  shows "attempts ev req scene_name (attempt # rest) w
         = (Inr None, emit w [HttpPost req, Print (SafetyFiltered scene_name)])"
  using assms(1) read_result_safety [OF assms(2,3)]
  by (simp add: Let_def emit_emit)

text \<open>
  Claim C8. When the response to a POST has a first candidate whose finish reason is
  \<open>SAFETY\<close>, the client returns \<open>None\<close> at once, at whatever attempt the response
  arrives: after that POST it prints the safety message and neither sleeps nor posts
  again. In the main loop the scene then ends without an output file, and the loop goes
  on with the scenes that remain.
\<close>

theorem safety_block_abandons_scene:
  assumes cands: "map_of kvs ''candidates'' = Some (JArr (JObj cs # cs_rest))"
    and reason: "map_of cs ''finishReason'' = Some (JStr ''SAFETY'')"
    and at_attempt: "net ev (posts w0) req0 = Returned (JObj kvs)"
    and key: "API_KEY ev \<noteq> []"
    and missing: "files w (save_path_of filename scene_name) = None"
    and req: "req = \<lparr>req_key = API_KEY ev, req_prompt = base_prompt, req_image = framed\<rparr>"
    and first: "net ev (posts w) req = Returned (JObj kvs)"
    and after: "w' = emit w ([Print (SendingToAI scene_name), HttpPost req,
                             Print (SafetyFiltered scene_name)]
                            @ (if j < n_scenes - 1
                               then [Print (WaitingScene DELAY_BETWEEN_SCENES),
                                     Sleep DELAY_BETWEEN_SCENES]
                               else []))"
  shows "attempts ev req0 scene_name (attempt # rest_attempts) w0
           = (Inr None, emit w0 [HttpPost req0, Print (SafetyFiltered scene_name)])
         \<and> generate_mockup_with_gemini ev framed base_prompt scene_name w
           = (Inr None, emit w [Print (SendingToAI scene_name), HttpPost req,
                                Print (SafetyFiltered scene_name)])
         \<and> scene_step ev filename n_scenes j (scene_name, base_prompt) (Some framed) w
           = (Next, Some framed, w')
         \<and> scenes_loop ev filename n_scenes ((j, scene_name, base_prompt) # rest)
             (Some framed) w
           = scenes_loop ev filename n_scenes rest (Some framed) w'
         \<and> files w' = files w \<and> posts w' = posts w + 1"
proof -
  have a: "attempts ev req0 scene_name (attempt # rest_attempts) w0
           = (Inr None, emit w0 [HttpPost req0, Print (SafetyFiltered scene_name)])"
    using at_attempt cands reason by (rule attempts_safety)
  have p: "posts (emit w [Print (SendingToAI scene_name)]) = posts w"
    by (simp add: posts_emit)
  have "attempts ev req scene_name (0 # [1, 2]) (emit w [Print (SendingToAI scene_name)])
        = (Inr None, emit (emit w [Print (SendingToAI scene_name)])
                       [HttpPost req, Print (SafetyFiltered scene_name)])"
    using first cands reason by (intro attempts_safety) (simp_all add: p)
  then have g: "generate_mockup_with_gemini ev framed base_prompt scene_name w
           = (Inr None, emit w [Print (SendingToAI scene_name), HttpPost req,
                                Print (SafetyFiltered scene_name)])"
    using key by (simp add: generate_mockup_with_gemini_def attempt_range req emit_emit)
  have s: "scene_step ev filename n_scenes j (scene_name, base_prompt) (Some framed) w
           = (Next, Some framed, w')"
    using missing by (simp add: scene_step_def g after Let_def emit_emit)
  have l: "scenes_loop ev filename n_scenes ((j, scene_name, base_prompt) # rest)
             (Some framed) w
           = scenes_loop ev filename n_scenes rest (Some framed) w'"
    by (simp add: s)
  have "files w' = files w" "posts w' = posts w + 1"
    by (simp_all add: after files_emit posts_emit)
  with a g s l show ?thesis by simp
qed


lemma save_path_example:
  "save_path_of ''a.jpg'' ''bedroom'' = ''mockup_outputs/a_bedroom_mockup.jpg''"
  by code_simp

lemma posts_fresh_world: "posts fresh_world = 0"
  by (simp add: posts_def fresh_world_def)

theorem safety_block_abandons_scene_witness:
  "generate_mockup_with_gemini (mock_env ''key'' (\<lambda>k. Returned safety_response)) framed_a
      ''prompt'' ''bedroom'' fresh_world
    = (Inr None,
       emit fresh_world
         [Print (SendingToAI ''bedroom''),
          HttpPost \<lparr>req_key = ''key'', req_prompt = ''prompt'', req_image = framed_a\<rparr>,
          Print (SafetyFiltered ''bedroom'')])
   \<and> scenes_loop (mock_env ''key'' (\<lambda>k. Returned safety_response)) ''a.jpg'' 5
        [(4, ''bedroom'', ''prompt'')] (Some framed_a) fresh_world
      = (None,
         emit fresh_world
           [Print (SendingToAI ''bedroom''),
            HttpPost \<lparr>req_key = ''key'', req_prompt = ''prompt'', req_image = framed_a\<rparr>,
            Print (SafetyFiltered ''bedroom'')])"
proof -
  let ?ev = "mock_env ''key'' (\<lambda>k. Returned safety_response)"
  let ?req = "\<lparr>req_key = ''key'', req_prompt = ''prompt'', req_image = framed_a\<rparr>"
  have c: "map_of [(''candidates'', JArr [JObj [(''finishReason'', JStr ''SAFETY'')]])]
             ''candidates'' = Some (JArr (JObj [(''finishReason'', JStr ''SAFETY'')] # []))"
    by simp
  have r: "map_of [(''finishReason'', JStr ''SAFETY'')] ''finishReason''
           = Some (JStr ''SAFETY'')"
    by simp
  have n: "net ?ev (posts fresh_world) ?req
           = Returned (JObj [(''candidates'', JArr [JObj [(''finishReason'', JStr ''SAFETY'')]])])"
    by (simp add: mock_env_def safety_response_def)
  have k: "API_KEY ?ev \<noteq> []" by (simp add: mock_env_def)
  have m: "files fresh_world (save_path_of ''a.jpg'' ''bedroom'') = None"
    by (simp add: save_path_example fresh_world_def one_photo_def)
  have q: "?req = \<lparr>req_key = API_KEY ?ev, req_prompt = ''prompt'', req_image = framed_a\<rparr>"
    by (simp add: mock_env_def)
  from safety_block_abandons_scene
    [where j = 4 and n_scenes = 5 and attempt = 0 and rest_attempts = "[]" and rest = "[]",
     OF c r n k m q n refl]
  show ?thesis by simp
qed

section \<open>Rate limits\<close>

lemma read_result_image:
  assumes "map_of kvs ''candidates'' = Some (JArr (JObj cs # cs_rest))"
    and "map_of cs ''finishReason'' \<noteq> Some (JStr ''SAFETY'')"
    and "map_of cs ''content'' = Some (JObj ct)"
    and "map_of ct ''parts'' = Some (JArr (JObj pt # pt_rest))"
    and "map_of pt ''inlineData'' = Some (JObj dt)"
    and "map_of dt ''data'' = Some generated_data"
    and "decode_image ev generated_data = Inr img"
  shows "read_result ev scene_name (JObj kvs) w = (Inr (Some img), w)"
proof -
  have ct: "ct \<noteq> []" using assms(4) by auto
  have fr: "(case map_of cs ''finishReason'' of None \<Rightarrow> JNull | Some v \<Rightarrow> v) \<noteq> JStr ''SAFETY''"
    using assms(2) by (auto split: option.splits)
  have "extract_image ev (JObj ct) = Inr (Some img)"
    using assms(4-7) ct
    by (simp add: extract_image_def json_truthy_def contains_key_def subscript_key_def
        subscript0_def bind_exn_def)
  then show ?thesis
    using assms(1,3) fr
    by (simp add: read_result_def dict_get_def subscript0_def bind_exn_def)
qed

lemma attempts_returned:
  assumes "net ev (posts w) req = Returned result"
  shows "attempts ev req scene_name (attempt # rest) w
         = read_result ev scene_name result (emit w [HttpPost req])"
  using assms by (simp add: Let_def)

text \<open>
  The test of line 183 never holds: a response with status 429 is falsy, a truthy
  response has another status, and an exception without a response carries
  \<^verbatim>\<open>None\<close>. So every \<open>RequestException\<close> takes the branch of lines 191 to 196: it
  is reported and ends the call, and the retry of lines 184 to 190 is never reached.
\<close>

lemma never_rate_limited: "\<not> is_rate_limited r"
  by (auto simp: is_rate_limited_def truthy_def split: option.splits)

lemma request_exception_ends_call:
  assumes "net ev (posts w) req = RequestException r"
  shows "attempts ev req scene_name (attempt # rest) w
         = (Inr None, emit w (HttpPost req # report_failure r))"
  using assms by (simp add: Let_def never_rate_limited emit_emit)

lemma status_429_report:
  "status_code resp = 429 \<Longrightarrow> report_failure (Some resp) = [Print RequestFailed]"
  by (simp add: report_failure_def truthy_def)

text \<open>
  Claim C1 says that a client whose POST answers 429 three times and succeeds the fourth
  time is retried three times, after 5, 10 and 20 seconds, and that the fourth attempt
  returns the decoded image. The code does not do this. At such a client the first 429
  already ends the call: the script posts once, prints that the request failed, does not
  sleep, does not post again and returns \<open>None\<close>.
\<close>

theorem rate_limit_not_retried:
  "generate_mockup_with_gemini
      (mock_env ''key'' (\<lambda>k. if k < 3 then too_many_requests else Returned image_response))
      framed_a ''prompt'' ''bedroom'' fresh_world
    = (Inr None,
       emit fresh_world
         [Print (SendingToAI ''bedroom''),
          HttpPost \<lparr>req_key = ''key'', req_prompt = ''prompt'', req_image = framed_a\<rparr>,
          Print RequestFailed])"
  by (simp add: generate_mockup_with_gemini_def attempt_range mock_env_def Let_def
      too_many_requests_def is_rate_limited_def truthy_def report_failure_def
      posts_emit posts_fresh_world emit_emit three_attempts)

section \<open>Resuming a run\<close>

text \<open>
  Claim C3. When the output file of a (photo, scene) pair exists at the start of its
  unit of work, the unit only prints that it skips the pair: it posts nothing, does not
  sleep, leaves \<open>framed_art\<close> as it was (no framing), leaves every file as it was, and
  the loop goes on with the next scene.
\<close>

theorem existing_output_skipped:
  assumes "files w (save_path_of filename scene_name) \<noteq> None"
  shows "scene_step ev filename n_scenes j (scene_name, base_prompt) framed_art w
           = (Next, framed_art, emit w [Print (Skipping scene_name filename)])
         \<and> posts (emit w [Print (Skipping scene_name filename)]) = posts w
         \<and> sleeps (emit w [Print (Skipping scene_name filename)]) = sleeps w
         \<and> files (emit w [Print (Skipping scene_name filename)]) = files w
         \<and> scenes_loop ev filename n_scenes ((j, scene_name, base_prompt) # rest) framed_art w
           = scenes_loop ev filename n_scenes rest framed_art
               (emit w [Print (Skipping scene_name filename)])"
proof -
  have s: "scene_step ev filename n_scenes j (scene_name, base_prompt) framed_art w
           = (Next, framed_art, emit w [Print (Skipping scene_name filename)])"
    using assms by (simp add: scene_step_def Let_def)
  then show ?thesis by (simp add: posts_emit sleeps_emit files_emit)
qed

theorem existing_output_skipped_witness:
  "scene_step (mock_env ''key'' (\<lambda>k. Returned image_response)) ''a.jpg'' 5 3
      (''bedroom'', ''prompt'') None
      \<lparr>files = (\<lambda>p. if p = ''mockup_outputs/a_bedroom_mockup.jpg'' then Some OtherFile
                     else one_photo p),
       trace = []\<rparr>
    = (Next, None,
       \<lparr>files = (\<lambda>p. if p = ''mockup_outputs/a_bedroom_mockup.jpg'' then Some OtherFile
                      else one_photo p),
        trace = [Print (Skipping ''bedroom'' ''a.jpg'')]\<rparr>)"
  using existing_output_skipped [of
      "\<lparr>files = (\<lambda>p. if p = ''mockup_outputs/a_bedroom_mockup.jpg'' then Some OtherFile
                     else one_photo p),
        trace = []\<rparr>"
      "''a.jpg''" "''bedroom''" "mock_env ''key'' (\<lambda>k. Returned image_response)" 5 3
      "''prompt''" None "[]"]
  by (simp add: save_path_example emit_def)

section \<open>The grid of the banner\<close>

lemma swap_props:
  assumes "i < length xs" "j < length xs"
  shows "length (swap i j xs) = length xs" "set (swap i j xs) = set xs"
  using assms by (simp_all add: swap_def)

lemma shuffle_from_props:
  "i < length xs \<Longrightarrow>
     length (fst (shuffle_from rng k i xs)) = length xs
   \<and> set (fst (shuffle_from rng k i xs)) = set xs"
proof (induction i arbitrary: k xs)
  case 0
  then show ?case by simp
next
  case (Suc i)
  let ?j = "rng k mod (Suc i + 1)"
  have j: "?j < length xs"
  proof -
    have "?j < Suc i + 1" by (rule mod_less_divisor) simp
    with Suc.prems show ?thesis by linarith
  qed
  from swap_props [OF Suc.prems j]
  have sw: "length (swap (Suc i) ?j xs) = length xs" "set (swap (Suc i) ?j xs) = set xs"
    by simp_all
  have "i < length (swap (Suc i) ?j xs)" using Suc.prems sw(1) by simp
  from Suc.IH [OF this, of "k + 1"] sw show ?case by (simp add: Let_def)
qed

lemma shuffle_props:
  "length (fst (shuffle rng k xs)) = length xs \<and> set (fst (shuffle rng k xs)) = set xs"
proof (cases "xs = []")
  case True
  then show ?thesis by (simp add: shuffle_def)
next
  case False
  then have "length xs - 1 < length xs" by simp
  from shuffle_from_props [OF this] show ?thesis by (simp add: shuffle_def)
qed

lemma to_place_props:
  assumes "pool \<noteq> []" "0 \<le> n"
  shows "\<exists>xs. to_place pool n = Inr xs \<and> int (length xs) = n \<and> set xs \<subseteq> set pool"
proof -
  let ?rep = "list_repeat pool (n div int (length pool) + 1)"
  have tp: "to_place pool n = Inr (slice_to ?rep n)"
    using assms(1) by (simp add: to_place_def repeated_pool_def bind_exn_def)
  have l: "0 < int (length pool)" using assms(1) by simp
  have "n \<le> int (length ?rep)"
    using repeat_count_covers [OF l assms(2)] by (simp add: length_list_repeat)
  then have len: "int (length (slice_to ?rep n)) = n"
    using assms(2) by (simp add: slice_to_def)
  have "set ?rep \<subseteq> set pool" by (auto simp: list_repeat_def)
  moreover have "set (slice_to ?rep n) \<subseteq> set ?rep"
    by (auto simp: slice_to_def dest: in_set_takeD)
  ultimately show ?thesis using tp len by auto
qed

lemma cell_of_place [simp]: "cell_of (place fs g r c src path) = (r, c)"
  by (simp add: cell_of_def place_def)

lemma place_fields [simp]:
  "source_pool (place fs g r c src path) = src"
  "img_path (place fs g r c src path) = path"
  "cell_row (place fs g r c src path) = r"
  "cell_col (place fs g r c src path) = c"
  by (simp_all add: place_def)

lemma place_cells_ok:
  assumes "fav_idx + length (filter (\<lambda>(r, c). in_center g r c) cells) \<le> length favs"
    and "other_idx + length (filter (\<lambda>(r, c). \<not> in_center g r c) cells) \<le> length others"
  shows "\<exists>ps. place_cells fs g favs others cells fav_idx other_idx = Inr ps
            \<and> map cell_of ps = cells
            \<and> (\<forall>p\<in>set ps.
                  (source_pool p = Favourites \<longleftrightarrow> in_center g (cell_row p) (cell_col p))
                \<and> (source_pool p = Favourites \<longrightarrow> img_path p \<in> set favs)
                \<and> (source_pool p = General \<longrightarrow> img_path p \<in> set others))"
  using assms
proof (induction cells arbitrary: fav_idx other_idx)
  case Nil
  then show ?case by simp
next
  case (Cons cell cells)
  obtain r c where rc: "cell = (r, c)" by (cases cell)
  show ?case
  proof (cases "in_center g r c")
    case True
    with Cons.prems rc have idx: "fav_idx < length favs"
      and p1: "(fav_idx + 1) + length (filter (\<lambda>(r, c). in_center g r c) cells) \<le> length favs"
      and p2: "other_idx + length (filter (\<lambda>(r, c). \<not> in_center g r c) cells) \<le> length others"
      by simp_all
    from Cons.IH [OF p1 p2] obtain ps where
      ps: "place_cells fs g favs others cells (fav_idx + 1) other_idx = Inr ps"
        "map cell_of ps = cells"
        "\<forall>p\<in>set ps.
            (source_pool p = Favourites \<longleftrightarrow> in_center g (cell_row p) (cell_col p))
          \<and> (source_pool p = Favourites \<longrightarrow> img_path p \<in> set favs)
          \<and> (source_pool p = General \<longrightarrow> img_path p \<in> set others)"
      by blast
    have "place_cells fs g favs others (cell # cells) fav_idx other_idx
          = Inr (place fs g r c Favourites (favs ! fav_idx) # ps)"
      using True idx ps(1) by (simp add: rc bind_exn_def)
    moreover have "favs ! fav_idx \<in> set favs" using idx by simp
    ultimately show ?thesis
      using ps(2,3) True by (simp add: rc)
  next
    case False
    with Cons.prems rc have idx: "other_idx < length others"
      and p1: "fav_idx + length (filter (\<lambda>(r, c). in_center g r c) cells) \<le> length favs"
      and p2: "(other_idx + 1) + length (filter (\<lambda>(r, c). \<not> in_center g r c) cells)
               \<le> length others"
      by simp_all
    from Cons.IH [OF p1 p2] obtain ps where
      ps: "place_cells fs g favs others cells fav_idx (other_idx + 1) = Inr ps"
        "map cell_of ps = cells"
        "\<forall>p\<in>set ps.
            (source_pool p = Favourites \<longleftrightarrow> in_center g (cell_row p) (cell_col p))
          \<and> (source_pool p = Favourites \<longrightarrow> img_path p \<in> set favs)
          \<and> (source_pool p = General \<longrightarrow> img_path p \<in> set others)"
      by blast
    have "place_cells fs g favs others (cell # cells) fav_idx other_idx
          = Inr (place fs g r c General (others ! other_idx) # ps)"
      using False idx ps(1) by (simp add: rc bind_exn_def)
    moreover have "others ! other_idx \<in> set others" using idx by simp
    ultimately show ?thesis
      using ps(2,3) False by (simp add: rc)
  qed
qed

lemma in_center_grid:
  "in_center (grid_geometry style) r c \<longleftrightarrow> 2 \<le> r \<and> r \<le> 3 \<and> 4 \<le> c \<and> c \<le> 10"
  by (auto simp: in_center_def grid_geometry_def Let_def total_cols_def total_rows_def
      center_cols_def center_rows_def)

lemma grid_cells_center_count:
  "length (filter (\<lambda>(r, c). 2 \<le> r \<and> r \<le> 3 \<and> 4 \<le> c \<and> c \<le> 10) grid_cells) = 14"
  by code_simp

lemma grid_cells_outer_count:
  "length (filter (\<lambda>(r, c). \<not> (2 \<le> r \<and> r \<le> 3 \<and> 4 \<le> c \<and> c \<le> 10)) grid_cells) = 76"
  by code_simp

lemma distinct_grid_cells: "distinct grid_cells"
  by code_simp

lemma length_grid_cells: "length grid_cells = 90"
  by code_simp

lemma set_grid_cells:
  "(r, c) \<in> set grid_cells \<longleftrightarrow> 0 \<le> r \<and> r < total_rows \<and> 0 \<le> c \<and> c < total_cols"
  by (fastforce simp: grid_cells_def total_rows_def total_cols_def)

lemma pools_disjoint: "set (favs_of names) \<inter> set (others_of (favs_of names) all_imgs) = {}"
  by (auto simp: others_of_def Let_def)


text \<open>
  Claim C2. Whenever \<open>make_banner\<close> reaches the grid (the favourites folder exists and
  both pools are non-empty), the loops assign an image to each of the 90 cells of the
  15 by 6 layout and to each cell exactly once. The image of a cell is taken from the
  favourites pool if and only if the cell lies in rows 2 to 3 and columns 4 to 10, and
  from the general pool otherwise; the two pools share no path.
\<close>

theorem every_cell_gets_one_image:
  assumes listing: "favs_listing = Some names"
    and favs: "favs_of names \<noteq> []"
    and others: "others_of (favs_of names) all_imgs \<noteq> []"
  shows "\<exists>ps. make_banner_grid fs rng favs_listing all_imgs style = Inr ps
           \<and> length ps = 90
           \<and> (\<forall>r c. 0 \<le> r \<and> r < total_rows \<and> 0 \<le> c \<and> c < total_cols \<longrightarrow>
                 (\<exists>!p. p \<in> set ps \<and> cell_row p = r \<and> cell_col p = c))
           \<and> (\<forall>p\<in>set ps.
                 (source_pool p = Favourites \<longleftrightarrow>
                    2 \<le> cell_row p \<and> cell_row p \<le> 3 \<and> 4 \<le> cell_col p \<and> cell_col p \<le> 10)
               \<and> (img_path p \<in> set (favs_of names) \<longleftrightarrow> source_pool p = Favourites)
               \<and> (img_path p \<in> set (others_of (favs_of names) all_imgs) \<longleftrightarrow>
                    source_pool p = General))"
proof -
  let ?favs = "favs_of names"
  let ?others = "others_of ?favs all_imgs"
  let ?g = "grid_geometry style"
  from to_place_props [OF favs, of 14] obtain ftp where
    ftp: "to_place ?favs 14 = Inr ftp" "length ftp = 14" "set ftp \<subseteq> set ?favs"
    by auto
  from to_place_props [OF others, of 76] obtain otp where
    otp: "to_place ?others 76 = Inr otp" "length otp = 76" "set otp \<subseteq> set ?others"
    by auto
  define fsh where "fsh = fst (shuffle rng 0 ftp)"
  define k where "k = snd (shuffle rng 0 ftp)"
  define osh where "osh = fst (shuffle rng k otp)"
  have fsh: "length fsh = 14" "set fsh \<subseteq> set ?favs"
    using shuffle_props [of rng 0 ftp] ftp by (simp_all add: fsh_def)
  have osh: "length osh = 76" "set osh \<subseteq> set ?others"
    using shuffle_props [of rng k otp] otp by (simp_all add: osh_def)
  have c1: "0 + length (filter (\<lambda>(r, c). in_center ?g r c) grid_cells) \<le> length fsh"
    using grid_cells_center_count fsh(1) by (simp add: in_center_grid)
  have c2: "0 + length (filter (\<lambda>(r, c). \<not> in_center ?g r c) grid_cells) \<le> length osh"
    using grid_cells_outer_count osh(1) by (simp add: in_center_grid)
  from place_cells_ok [OF c1 c2, of fs] obtain ps where
    ps: "place_cells fs ?g fsh osh grid_cells 0 0 = Inr ps"
      "map cell_of ps = grid_cells"
      "\<forall>p\<in>set ps.
          (source_pool p = Favourites \<longleftrightarrow> in_center ?g (cell_row p) (cell_col p))
        \<and> (source_pool p = Favourites \<longrightarrow> img_path p \<in> set fsh)
        \<and> (source_pool p = General \<longrightarrow> img_path p \<in> set osh)"
    by blast
  have run: "make_banner_grid fs rng favs_listing all_imgs style = Inr ps"
    using favs others ftp(1) otp(1) ps(1)
    by (simp add: make_banner_grid_def listing Let_def bind_exn_def center_cols_def
        center_rows_def total_cols_def total_rows_def fsh_def k_def osh_def
        case_prod_beta)
  have len: "length ps = 90"
    using ps(2) length_grid_cells by (metis length_map)
  have dist: "distinct (map cell_of ps)"
    using ps(2) distinct_grid_cells by simp
  have one: "\<exists>!p. p \<in> set ps \<and> cell_row p = r \<and> cell_col p = c"
    if "0 \<le> r \<and> r < total_rows \<and> 0 \<le> c \<and> c < total_cols" for r c
  proof -
    from that have "(r, c) \<in> set (map cell_of ps)"
      by (simp only: ps(2) set_grid_cells)
    then obtain p where p: "p \<in> set ps" "cell_of p = (r, c)" by auto
    have "q = p" if "q \<in> set ps" "cell_row q = r" "cell_col q = c" for q
    proof -
      from that(2,3) p(2) have "cell_of q = cell_of p" by (simp add: cell_of_def)
      with dist that(1) p(1) show ?thesis
        by (meson distinct_map inj_onD)
    qed
    with p show ?thesis by (auto simp: cell_of_def)
  qed
  have src: "(source_pool p = Favourites \<longleftrightarrow>
               2 \<le> cell_row p \<and> cell_row p \<le> 3 \<and> 4 \<le> cell_col p \<and> cell_col p \<le> 10)
           \<and> (img_path p \<in> set ?favs \<longleftrightarrow> source_pool p = Favourites)
           \<and> (img_path p \<in> set ?others \<longleftrightarrow> source_pool p = General)"
    if "p \<in> set ps" for p
  proof -
    from ps(3) that have
      a: "source_pool p = Favourites \<longleftrightarrow> in_center ?g (cell_row p) (cell_col p)" and
      b: "source_pool p = Favourites \<longrightarrow> img_path p \<in> set fsh" and
      c: "source_pool p = General \<longrightarrow> img_path p \<in> set osh"
      by blast+
    have d: "img_path p \<in> set ?favs \<Longrightarrow> img_path p \<in> set ?others \<Longrightarrow> False"
      using pools_disjoint [of names all_imgs] by blast
    show ?thesis
    proof (cases "source_pool p")
      case Favourites
      with a b d fsh(2) show ?thesis by (auto simp: in_center_grid)
    next
      case General
      with a c d osh(2) show ?thesis by (auto simp: in_center_grid)
    qed
  qed
  from run len one src show ?thesis by blast
qed

lemma example_pools:
  "favs_of [''f.jpg''] = [''Favs/f.jpg'']"
  "others_of [''Favs/f.jpg''] [''banner_photos_v5/x.jpg''] = [''banner_photos_v5/x.jpg'']"
  by code_simp+

theorem every_cell_gets_one_image_witness:
  "\<exists>ps. make_banner_grid one_photo (\<lambda>k. 0) (Some [''f.jpg'']) [''banner_photos_v5/x.jpg'']
          ''cinematic'' = Inr ps
      \<and> length ps = 90
      \<and> (\<forall>p\<in>set ps.
            (source_pool p = Favourites \<longleftrightarrow>
               2 \<le> cell_row p \<and> cell_row p \<le> 3 \<and> 4 \<le> cell_col p \<and> cell_col p \<le> 10)
          \<and> (img_path p = ''Favs/f.jpg'' \<longleftrightarrow> source_pool p = Favourites)
          \<and> (img_path p = ''banner_photos_v5/x.jpg'' \<longleftrightarrow> source_pool p = General))"
  using every_cell_gets_one_image [of "Some [''f.jpg'']" "[''f.jpg'']"
      "[''banner_photos_v5/x.jpg'']" one_photo "\<lambda>k. 0" "''cinematic''"]
  by (simp add: example_pools) blast

end
